theory Spec2Isabelle
  imports Complex_Main
begin

section \<open>Python values\<close>

text \<open>
  The detections, the mapping and the session state of SafetyEye are Python dictionaries,
  lists, tuples, strings and numbers. They are modelled by one datatype of values.
  A dictionary is its list of items in insertion order (the order \<^verbatim>\<open>.items()\<close> walks).
  A float is an exact rational: rounding, infinities and NaN are outside the model.
\<close>

datatype pyval =
    PNone
  | PBool bool
  | PInt int
  | PFloat rat
  | PStr string
  | PList "pyval list"
  | PTuple "pyval list"
  | PDict "(pyval \<times> pyval) list"

text \<open>Every \<^verbatim>\<open>raise\<close> the modelled code can reach is a value of this type.\<close>

datatype py_error = TypeError | ValueError | AttributeError | KeyError | IndexError | ZeroDivisionError

text \<open>
  What the model does not compute of the Python runtime is a parameter: the text
  \<^verbatim>\<open>str()\<close> gives for a float, a list, a tuple or a dict, and the parsers behind
  \<^verbatim>\<open>int(s)\<close> and \<^verbatim>\<open>float(s)\<close> for a string \<open>s\<close> (\<open>None\<close> is their ValueError).
\<close>

record builtins =
  repr_other :: "pyval \<Rightarrow> string"
  parse_int :: "string \<Rightarrow> int option"
  parse_float :: "string \<Rightarrow> rat option"

subsection \<open>Results that may be an exception\<close>

text \<open>A computation returns \<open>Inr\<close> its value or \<open>Inl\<close> the exception it raised;
  \<open>then_err m f\<close> runs \<open>f\<close> on the value of \<open>m\<close> and passes an exception on.\<close>

definition then_err :: "'e + 'a \<Rightarrow> ('a \<Rightarrow> 'e + 'b) \<Rightarrow> 'e + 'b" where
  "then_err m f = (case m of Inl e \<Rightarrow> Inl e | Inr x \<Rightarrow> f x)"

subsection \<open>Dictionaries\<close>

text \<open>\<^verbatim>\<open>d.get(k, default)\<close>, \<^verbatim>\<open>k in d\<close> is \<open>map_of d k \<noteq> None\<close>.\<close>

definition dict_get :: "('k \<times> 'v) list \<Rightarrow> 'k \<Rightarrow> 'v \<Rightarrow> 'v" where
  "dict_get d k dflt = (case map_of d k of Some v \<Rightarrow> v | None \<Rightarrow> dflt)"

text \<open>\<^verbatim>\<open>d[k] = v\<close>: a key already present keeps its place, a new key goes last.\<close>

fun dict_set :: "('k \<times> 'v) list \<Rightarrow> 'k \<Rightarrow> 'v \<Rightarrow> ('k \<times> 'v) list" where
  "dict_set [] k v = [(k, v)]"
| "dict_set ((k', v') # d) k v = (if k' = k then (k', v) # d else (k', v') # dict_set d k v)"

subsection \<open>Numbers, text and truth\<close>

text \<open>The number a value stands for in arithmetic and comparisons (bool is a subtype of int).\<close>

fun num :: "pyval \<Rightarrow> rat option" where
  "num (PInt i) = Some (of_int i)"
| "num (PFloat r) = Some r"
| "num (PBool b) = Some (if b then 1 else 0)"
| "num _ = None"

text \<open>Truthiness, as \<^verbatim>\<open>if x:\<close> tests it.\<close>

fun truthy :: "pyval \<Rightarrow> bool" where
  "truthy PNone = False"
| "truthy (PBool b) = b"
| "truthy (PInt i) = (i \<noteq> 0)"
| "truthy (PFloat r) = (r \<noteq> 0)"
| "truthy (PStr s) = (s \<noteq> [])"
| "truthy (PList xs) = (xs \<noteq> [])"
| "truthy (PTuple xs) = (xs \<noteq> [])"
| "truthy (PDict d) = (d \<noteq> [])"

text \<open>Decimal digits of an integer, as \<^verbatim>\<open>str(n)\<close> prints them.\<close>

definition digit_char :: "nat \<Rightarrow> char" where
  "digit_char d = char_of (48 + d)"

function str_nat :: "nat \<Rightarrow> string" where
  "str_nat n = (if n < 10 then [digit_char n] else str_nat (n div 10) @ [digit_char (n mod 10)])"
  by pat_completeness auto
termination
  by (relation "measure id") auto

definition str_int :: "int \<Rightarrow> string" where
  "str_int i = (if i < 0 then CHR ''-'' # str_nat (nat (- i)) else str_nat (nat i))"

text \<open>\<^verbatim>\<open>str(x)\<close>. It raises for none of these values.\<close>

fun py_str :: "builtins \<Rightarrow> pyval \<Rightarrow> string" where
  "py_str B (PStr s) = s"
| "py_str B (PInt i) = str_int i"
| "py_str B (PBool b) = (if b then ''True'' else ''False'')"
| "py_str B PNone = ''None''"
| "py_str B v = repr_other B v"

text \<open>
  \<^verbatim>\<open>s.lower()\<close> on the letters A to Z. The labels the rules compare with are ASCII, and
  no character outside ASCII lowers to one of their letters.
\<close>

definition lower_char :: "char \<Rightarrow> char" where
  "lower_char c = (let n = (of_char c :: nat) in if 65 \<le> n \<and> n \<le> 90 then char_of (n + 32) else c)"

definition lower :: "string \<Rightarrow> string" where
  "lower s = map lower_char s"

text \<open>\<^verbatim>\<open>int(x)\<close>: a float is truncated towards zero, a string is parsed.\<close>

fun py_int :: "builtins \<Rightarrow> pyval \<Rightarrow> py_error + int" where
  "py_int B (PInt i) = Inr i"
| "py_int B (PBool b) = Inr (if b then 1 else 0)"
| "py_int B (PFloat r) = Inr (if 0 \<le> r then \<lfloor>r\<rfloor> else \<lceil>r\<rceil>)"
| "py_int B (PStr s) = (case parse_int B s of Some i \<Rightarrow> Inr i | None \<Rightarrow> Inl ValueError)"
| "py_int B v = Inl TypeError"

text \<open>\<^verbatim>\<open>float(x)\<close>.\<close>

fun py_float :: "builtins \<Rightarrow> pyval \<Rightarrow> py_error + rat" where
  "py_float B (PInt i) = Inr (of_int i)"
| "py_float B (PFloat r) = Inr r"
| "py_float B (PBool b) = Inr (if b then 1 else 0)"
| "py_float B (PStr s) = (case parse_float B s of Some r \<Rightarrow> Inr r | None \<Rightarrow> Inl ValueError)"
| "py_float B v = Inl TypeError"

section \<open>core/utils.py\<close>

text \<open>
  A box is the list of the items of a list or tuple. \<open>coord box i\<close> is the number at
  \<^verbatim>\<open>box[i]\<close>. An item that is not a number makes \<^verbatim>\<open>iou\<close> and \<^verbatim>\<open>center\<close> raise
  TypeError: \<^verbatim>\<open>max\<close> and \<^verbatim>\<open>min\<close> either raise on it or return a value that is not a
  number, and the subtraction \<^verbatim>\<open>xB - xA\<close> (in \<^verbatim>\<open>center\<close> the division by 2.0) raises on
  that.
\<close>

definition as_num :: "pyval \<Rightarrow> py_error + rat" where
  "as_num v = (case num v of Some r \<Rightarrow> Inr r | None \<Rightarrow> Inl TypeError)"

definition coord :: "pyval list \<Rightarrow> nat \<Rightarrow> py_error + rat" where
  "coord box i = (if i < length box then as_num (box ! i) else Inl IndexError)"

text \<open>The arithmetic of \<^verbatim>\<open>iou\<close> on eight numbers.\<close>

definition iou_num :: "rat \<Rightarrow> rat \<Rightarrow> rat \<Rightarrow> rat \<Rightarrow> rat \<Rightarrow> rat \<Rightarrow> rat \<Rightarrow> rat \<Rightarrow> rat" where
  "iou_num a0 a1 a2 a3 b0 b1 b2 b3 =
     (let xA = max a0 b0; yA = max a1 b1;
          xB = min a2 b2; yB = min a3 b3;
          interW = max 0 (xB - xA); interH = max 0 (yB - yA);
          interArea = interW * interH;
          boxAArea = max 1 (a2 - a0) * max 1 (a3 - a1);
          boxBArea = max 1 (b2 - b0) * max 1 (b3 - b1);
          union = boxAArea + boxBArea - interArea
      in if union > 0 then interArea / union else 0)"

definition iou :: "pyval list \<Rightarrow> pyval list \<Rightarrow> py_error + rat" where
  "iou boxA boxB =
     then_err (coord boxA 0) (\<lambda>a0. then_err (coord boxB 0) (\<lambda>b0.
     then_err (coord boxA 1) (\<lambda>a1. then_err (coord boxB 1) (\<lambda>b1.
     then_err (coord boxA 2) (\<lambda>a2. then_err (coord boxB 2) (\<lambda>b2.
     then_err (coord boxA 3) (\<lambda>a3. then_err (coord boxB 3) (\<lambda>b3.
       Inr (iou_num a0 a1 a2 a3 b0 b1 b2 b3)))))))))"

text \<open>\<^verbatim>\<open>center\<close> unpacks exactly four items (ValueError otherwise).\<close>

definition center :: "pyval list \<Rightarrow> py_error + rat \<times> rat" where
  "center box =
     (case box of
        [x1, y1, x2, y2] \<Rightarrow>
          (case (num x1, num x2) of
             (Some a, Some b) \<Rightarrow>
               (case (num y1, num y2) of
                  (Some c, Some d) \<Rightarrow> Inr ((a + b) / 2, (c + d) / 2)
                | _ \<Rightarrow> Inl TypeError)
           | _ \<Rightarrow> Inl TypeError)
      | _ \<Rightarrow> Inl ValueError)"


section \<open>core/rules.py\<close>

subsection \<open>Helpers\<close>

text \<open>The first loop of \<^verbatim>\<open>safe_label\<close>, over the numeric class id fields.\<close>

fun class_id_label :: "builtins \<Rightarrow> (pyval \<times> pyval) list \<Rightarrow> string list \<Rightarrow> string option" where
  "class_id_label B det [] = None"
| "class_id_label B det (key # keys) =
     (case map_of det (PStr key) of
        Some v \<Rightarrow>
          if v \<noteq> PNone
          then Some (case py_int B v of Inr i \<Rightarrow> str_int i | Inl e \<Rightarrow> lower (py_str B v))
          else class_id_label B det keys
      | None \<Rightarrow> class_id_label B det keys)"

text \<open>The second loop, over the other text-like fields.\<close>

fun text_label :: "builtins \<Rightarrow> (pyval \<times> pyval) list \<Rightarrow> string list \<Rightarrow> string option" where
  "text_label B det [] = None"
| "text_label B det (key # keys) =
     (case map_of det (PStr key) of
        Some v \<Rightarrow> if truthy v then Some (lower (py_str B v)) else text_label B det keys
      | None \<Rightarrow> text_label B det keys)"

definition label_fallback :: "builtins \<Rightarrow> (pyval \<times> pyval) list \<Rightarrow> string" where
  "label_fallback B det =
     (case class_id_label B det [''cls'', ''class'', ''class_id'', ''category''] of
        Some l \<Rightarrow> l
      | None \<Rightarrow>
          (case text_label B det [''name'', ''class_name'', ''label_text''] of
             Some l \<Rightarrow> l
           | None \<Rightarrow> []))"

text \<open>\<^verbatim>\<open>safe_label\<close>. \<^verbatim>\<open>str\<close> and \<^verbatim>\<open>lower\<close> raise for none of the values of the
  model, so their \<^verbatim>\<open>except\<close> branches are never taken; \<^verbatim>\<open>int\<close> may raise, and then
  the class id is rendered with \<^verbatim>\<open>str\<close>.\<close>

definition safe_label :: "builtins \<Rightarrow> pyval \<Rightarrow> string" where
  "safe_label B det =
     (case det of
        PDict d \<Rightarrow>
          (case map_of d (PStr ''label'') of
             Some v \<Rightarrow> if v \<noteq> PNone then lower (py_str B v) else label_fallback B d
           | None \<Rightarrow> label_fallback B d)
      | _ \<Rightarrow> [])"

definition has_valid_box :: "pyval \<Rightarrow> bool" where
  "has_valid_box det =
     (case det of
        PDict d \<Rightarrow>
          (case map_of d (PStr ''box'') of
             None \<Rightarrow> False
           | Some box \<Rightarrow>
               (case box of
                  PList xs \<Rightarrow> length xs = 4
                | PTuple xs \<Rightarrow> length xs = 4
                | _ \<Rightarrow> False))
      | _ \<Rightarrow> False)"

subsection \<open>Detections to persons and their equipment\<close>

text \<open>
  The mapping \<^verbatim>\<open>{idx: {"person": p, "ppe": [...]}}\<close> is built with the keys
  \<open>0, 1, \<dots>\<close> in this order, so it is the list of its entries, the key being the position.
\<close>

record entry =
  person :: pyval
  ppe :: "pyval list"

text \<open>\<^verbatim>\<open>d["box"]\<close> as the items \<^verbatim>\<open>iou\<close> and \<^verbatim>\<open>center\<close> index; after the cleaning
  step it is a list or tuple of four items.\<close>

definition det_box :: "pyval \<Rightarrow> py_error + pyval list" where
  "det_box d =
     (case d of
        PDict kv \<Rightarrow>
          (case map_of kv (PStr ''box'') of
             Some (PList xs) \<Rightarrow> Inr xs
           | Some (PTuple xs) \<Rightarrow> Inr xs
           | Some _ \<Rightarrow> Inl TypeError
           | None \<Rightarrow> Inl KeyError)
      | _ \<Rightarrow> Inl TypeError)"

definition is_person :: "builtins \<Rightarrow> pyval \<Rightarrow> bool" where
  "is_person B d = (safe_label B d \<in> {''person'', ''people'', ''0''})"

text \<open>The loop over \<^verbatim>\<open>mapping.items()\<close> that looks for the best IoU; \<open>idx\<close> is the key of
  the first entry of the list.\<close>

fun best_person ::
  "rat \<Rightarrow> pyval list \<Rightarrow> entry list \<Rightarrow> nat \<Rightarrow> rat \<Rightarrow> nat option \<Rightarrow> py_error + nat option" where
  "best_person iou_thresh ppe_box [] idx best_iou best_idx = Inr best_idx"
| "best_person iou_thresh ppe_box (info # rest) idx best_iou best_idx =
     then_err (det_box (person info)) (\<lambda>p_box.
     then_err (iou p_box ppe_box) (\<lambda>ov.
       if ov > best_iou \<and> ov \<ge> iou_thresh
       then best_person iou_thresh ppe_box rest (Suc idx) ov (Some idx)
       else best_person iou_thresh ppe_box rest (Suc idx) best_iou best_idx))"

text \<open>\<^verbatim>\<open>x1 <= cx <= x2 and y1 <= cy <= y2\<close>, left to right, stopping at the first false.\<close>

definition inside :: "pyval list \<Rightarrow> rat \<Rightarrow> rat \<Rightarrow> py_error + bool" where
  "inside box cx cy =
     (case box of
        [x1, y1, x2, y2] \<Rightarrow>
          then_err (as_num x1) (\<lambda>a. if \<not> a \<le> cx then Inr False else
          then_err (as_num x2) (\<lambda>b. if \<not> cx \<le> b then Inr False else
          then_err (as_num y1) (\<lambda>c. if \<not> c \<le> cy then Inr False else
          then_err (as_num y2) (\<lambda>d. Inr (cy \<le> d)))))
      | _ \<Rightarrow> Inl ValueError)"

text \<open>The backup loop: the first person whose box holds the centre.\<close>

fun first_inside :: "rat \<Rightarrow> rat \<Rightarrow> entry list \<Rightarrow> nat \<Rightarrow> py_error + nat option" where
  "first_inside cx cy [] idx = Inr None"
| "first_inside cx cy (info # rest) idx =
     then_err (det_box (person info)) (\<lambda>p_box.
     then_err (inside p_box cx cy) (\<lambda>hit.
       if hit then Inr (Some idx) else first_inside cx cy rest (Suc idx)))"

text \<open>\<^verbatim>\<open>mapping[idx]["ppe"].append(ppe_det)\<close>.\<close>

definition add_ppe :: "entry list \<Rightarrow> nat \<Rightarrow> pyval \<Rightarrow> entry list" where
  "add_ppe mapping idx ppe_det = mapping[idx := (mapping ! idx)\<lparr>ppe := ppe (mapping ! idx) @ [ppe_det]\<rparr>]"

text \<open>The body of the loop over \<^verbatim>\<open>others\<close>, for one equipment detection.\<close>

definition assign_ppe :: "rat \<Rightarrow> entry list \<Rightarrow> pyval \<Rightarrow> py_error + entry list" where
  "assign_ppe iou_thresh mapping ppe_det =
     then_err (det_box ppe_det) (\<lambda>ppe_box.
     then_err (best_person iou_thresh ppe_box mapping 0 0 None) (\<lambda>best_idx.
       case best_idx of
         Some idx \<Rightarrow> Inr (add_ppe mapping idx ppe_det)
       | None \<Rightarrow>
           then_err (center ppe_box) (\<lambda>(cx, cy).
           then_err (first_inside cx cy mapping 0) (\<lambda>hit.
             case hit of
               Some idx \<Rightarrow> Inr (add_ppe mapping idx ppe_det)
             | None \<Rightarrow> Inr mapping))))"

fun assign_all :: "rat \<Rightarrow> entry list \<Rightarrow> pyval list \<Rightarrow> py_error + entry list" where
  "assign_all iou_thresh mapping [] = Inr mapping"
| "assign_all iou_thresh mapping (ppe_det # others) =
     then_err (assign_ppe iou_thresh mapping ppe_det) (\<lambda>mapping'.
       assign_all iou_thresh mapping' others)"

definition match_ppe_to_person :: "builtins \<Rightarrow> pyval list \<Rightarrow> rat \<Rightarrow> py_error + entry list" where
  "match_ppe_to_person B detections iou_thresh =
     (let cleaned = filter has_valid_box detections;
          persons = filter (is_person B) cleaned;
          others = filter (\<lambda>d. \<not> is_person B d) cleaned;
          mapping = map (\<lambda>p. \<lparr>person = p, ppe = []\<rparr>) persons
      in assign_all iou_thresh mapping others)"

text \<open>The Python object the mapping is: what \<^verbatim>\<open>evaluate_violations\<close> receives.\<close>

definition entry_value :: "entry \<Rightarrow> pyval" where
  "entry_value info = PDict [(PStr ''person'', person info), (PStr ''ppe'', PList (ppe info))]"

definition mapping_value :: "entry list \<Rightarrow> pyval" where
  "mapping_value mapping =
     PDict (map (\<lambda>(idx, info). (PInt (int idx), entry_value info)) (enumerate 0 mapping))"

subsection \<open>Violation evaluation\<close>

text \<open>The \<^verbatim>\<open>"details"\<close> of a violation, and the violation dictionary itself.\<close>

record signals =
  has_helmet :: bool
  has_no_helmet :: bool
  has_vest :: bool
  has_no_vest :: bool

record violation =
  person_idx :: pyval
  person_box :: pyval
  missing_helmet :: bool
  missing_vest :: bool
  details :: signals

text \<open>What a \<^verbatim>\<open>for\<close> loop walks: the items of a list or tuple, the characters of a
  string, the keys of a dictionary; the other values are not iterable.\<close>

fun py_iter :: "pyval \<Rightarrow> py_error + pyval list" where
  "py_iter (PList xs) = Inr xs"
| "py_iter (PTuple xs) = Inr xs"
| "py_iter (PStr s) = Inr (map (\<lambda>c. PStr [c]) s)"
| "py_iter (PDict d) = Inr (map fst d)"
| "py_iter v = Inl TypeError"

text \<open>\<^verbatim>\<open>float(p.get("conf", 0.0))\<close>; \<^verbatim>\<open>p.get\<close> needs a dictionary.\<close>

definition det_conf :: "builtins \<Rightarrow> pyval \<Rightarrow> py_error + rat" where
  "det_conf B p =
     (case p of
        PDict d \<Rightarrow> py_float B (dict_get d (PStr ''conf'') (PFloat 0))
      | _ \<Rightarrow> Inl AttributeError)"

text \<open>The \<^verbatim>\<open>if\<close>/\<^verbatim>\<open>elif\<close> chain on one equipment detection.\<close>

definition note_signal :: "string \<Rightarrow> rat \<Rightarrow> rat \<Rightarrow> signals \<Rightarrow> signals" where
  "note_signal lab c conf_threshold s =
     (if lab = ''helmet'' \<and> c \<ge> conf_threshold then s\<lparr>has_helmet := True\<rparr>
      else if lab = ''no_helmet'' \<and> c \<ge> conf_threshold then s\<lparr>has_no_helmet := True\<rparr>
      else if lab = ''vest'' \<and> c \<ge> conf_threshold then s\<lparr>has_vest := True\<rparr>
      else if lab = ''no_vest'' \<and> c \<ge> conf_threshold then s\<lparr>has_no_vest := True\<rparr>
      else s)"

text \<open>The loop over \<^verbatim>\<open>ppe_list\<close>.\<close>

fun scan_ppe :: "builtins \<Rightarrow> rat \<Rightarrow> pyval list \<Rightarrow> signals \<Rightarrow> py_error + signals" where
  "scan_ppe B conf_threshold [] s = Inr s"
| "scan_ppe B conf_threshold (p # ps) s =
     (let lab = safe_label B p in
      then_err (det_conf B p) (\<lambda>c.
        scan_ppe B conf_threshold ps (note_signal lab c conf_threshold s)))"

definition no_signals :: signals where
  "no_signals = \<lparr>has_helmet = False, has_no_helmet = False, has_vest = False, has_no_vest = False\<rparr>"

definition zero_box :: pyval where
  "zero_box = PTuple [PInt 0, PInt 0, PInt 0, PInt 0]"

text \<open>The body of the loop over \<^verbatim>\<open>mapping.items()\<close>: it appends to both result lists,
  or to neither.\<close>

definition eval_person ::
  "builtins \<Rightarrow> rat \<Rightarrow> pyval \<times> pyval \<Rightarrow> violation list \<times> pyval list \<Rightarrow>
   py_error + violation list \<times> pyval list" where
  "eval_person B conf_threshold item acc =
     (case item of (idx, info) \<Rightarrow>
      case acc of (violations, violation_boxes) \<Rightarrow>
      case info of
        PDict i \<Rightarrow>
          (let person = dict_get i (PStr ''person'') (PDict []);
               ppe_list = dict_get i (PStr ''ppe'') (PList [])
           in case person of
                PDict pd \<Rightarrow>
                  (let person_box = dict_get pd (PStr ''box'') zero_box in
                   then_err (py_iter ppe_list) (\<lambda>ps.
                   then_err (scan_ppe B conf_threshold ps no_signals) (\<lambda>s.
                     let missing_helmet = (\<not> has_helmet s \<or> has_no_helmet s);
                         missing_vest = (\<not> has_vest s \<or> has_no_vest s)
                     in if missing_helmet \<or> missing_vest
                        then Inr (violations @
                                    [\<lparr>person_idx = idx, person_box = person_box,
                                      missing_helmet = missing_helmet,
                                      missing_vest = missing_vest, details = s\<rparr>],
                                  violation_boxes @ [person_box])
                        else Inr (violations, violation_boxes))))
              | _ \<Rightarrow> Inl AttributeError)
      | _ \<Rightarrow> Inl AttributeError)"

fun eval_loop ::
  "builtins \<Rightarrow> rat \<Rightarrow> (pyval \<times> pyval) list \<Rightarrow> violation list \<times> pyval list \<Rightarrow>
   py_error + violation list \<times> pyval list" where
  "eval_loop B conf_threshold [] acc = Inr acc"
| "eval_loop B conf_threshold (item # items) acc =
     then_err (eval_person B conf_threshold item acc) (\<lambda>acc'.
       eval_loop B conf_threshold items acc')"

text \<open>The failsafe for a mapping that comes as a list. The index falls back to 0 on any
  exception; \<^verbatim>\<open>item.get("person_box", ...)\<close> stands outside the \<^verbatim>\<open>try\<close>.\<close>

definition item_idx :: "builtins \<Rightarrow> pyval \<Rightarrow> int" where
  "item_idx B item =
     (case item of
        PDict d \<Rightarrow> (case py_int B (dict_get d (PStr ''person_idx'') (PInt 0)) of
                     Inr i \<Rightarrow> i
                   | Inl e \<Rightarrow> 0)
      | _ \<Rightarrow> 0)"

definition list_entry :: "pyval \<Rightarrow> pyval" where
  "list_entry box = PDict [(PStr ''person'', PDict [(PStr ''box'', box)]), (PStr ''ppe'', PList [])]"

fun list_to_mapping ::
  "builtins \<Rightarrow> pyval list \<Rightarrow> (pyval \<times> pyval) list \<Rightarrow> py_error + (pyval \<times> pyval) list" where
  "list_to_mapping B [] tmp = Inr tmp"
| "list_to_mapping B (item # items) tmp =
     (let idx = item_idx B item in
      case item of
        PDict d \<Rightarrow>
          list_to_mapping B items
            (dict_set tmp (PInt idx) (list_entry (dict_get d (PStr ''person_box'') zero_box)))
      | _ \<Rightarrow> Inl AttributeError)"

definition evaluate_violations ::
  "builtins \<Rightarrow> pyval \<Rightarrow> rat \<Rightarrow> py_error + violation list \<times> pyval list" where
  "evaluate_violations B mapping conf_threshold =
     then_err (case mapping of
                 PList items \<Rightarrow> then_err (list_to_mapping B items []) (\<lambda>tmp. Inr (PDict tmp))
               | _ \<Rightarrow> Inr mapping) (\<lambda>mapping'.
       case mapping' of
         PDict items \<Rightarrow> eval_loop B conf_threshold items ([], [])
       | _ \<Rightarrow> Inl AttributeError)"

definition detect_violations :: "builtins \<Rightarrow> pyval list \<Rightarrow> rat \<Rightarrow> rat \<Rightarrow> py_error + violation list" where
  "detect_violations B detections iou_thresh conf_threshold =
     then_err (match_ppe_to_person B detections iou_thresh) (\<lambda>mapping.
     then_err (evaluate_violations B (mapping_value mapping) conf_threshold) (\<lambda>(violations, boxes).
       Inr violations))"

section \<open>app.py: the main loop\<close>


definition EMAIL_COOLDOWN :: rat where
  "EMAIL_COOLDOWN = 60"

text \<open>The widgets of the page that the loop reads.\<close>

record config =
  conf_slider :: rat
  run_rate :: int
  enable_email :: bool
  smtp_host :: string
  smtp_port :: int
  use_ssl :: bool
  smtp_user :: string
  smtp_password :: string
  recipient :: string

text \<open>\<^verbatim>\<open>st.session_state\<close>: initially no log time, and 0.0 for both timestamps.\<close>

record session =
  last_log_time :: "pyval \<rightharpoonup> rat"
  last_frame_time :: rat
  last_email_time :: rat

definition initial_session :: session where
  "initial_session = \<lparr>last_log_time = Map.empty, last_frame_time = 0, last_email_time = 0\<rparr>"

text \<open>
  One frame as the loop sees it: \<open>now\<close> is the clock read at the top of the loop body,
  \<open>later k\<close> the \<open>k\<close>-th reading after it, \<open>detections\<close> what the detector returns and
  \<open>send_ok\<close> what the sender returns if it is called.
\<close>

record frame_input =
  now :: rat
  later :: "nat \<Rightarrow> rat"
  detections :: "pyval list"
  send_ok :: bool






text \<open>
  The email block. The result holds the body of the message when a send is attempted.
  The clock is read only behind the first test.
\<close>

definition email_alert ::
  "config \<Rightarrow> violation list \<Rightarrow> rat \<Rightarrow> bool \<Rightarrow> session \<Rightarrow> session \<times> string option" where
  "email_alert cfg violations now_email ok st =
     (if enable_email cfg \<and> violations \<noteq> [] \<and> smtp_host cfg \<noteq> [] \<and> smtp_user cfg \<noteq> []
         \<and> smtp_password cfg \<noteq> [] \<and> recipient cfg \<noteq> []
      then if now_email - last_email_time st \<ge> EMAIL_COOLDOWN
           then (if ok then st\<lparr>last_email_time := now_email\<rparr> else st,
                 Some (''Total violations: '' @ str_nat (length violations)))
           else (st, None)
      else (st, None))"




section \<open>The rules in the words of the specification\<close>

text \<open>
  These definitions follow the specification, not the code; the theorems below compare
  them with the functions above.
\<close>

text \<open>A runtime for the concrete instances: no text for floats and containers, and
  parsers that accept nothing.\<close>

definition plain_builtins :: builtins where
  "plain_builtins = \<lparr>repr_other = (\<lambda>v. []), parse_int = (\<lambda>s. None), parse_float = (\<lambda>s. None)\<rparr>"

definition is_dict :: "pyval \<Rightarrow> bool" where
  "is_dict v = (case v of PDict d \<Rightarrow> True | _ \<Rightarrow> False)"

subsection \<open>The missing rule\<close>

text \<open>A detection counts for a label when it carries the label and its confidence
  reaches the threshold.\<close>

definition counts_as :: "builtins \<Rightarrow> rat \<Rightarrow> string \<Rightarrow> pyval \<Rightarrow> bool" where
  "counts_as B conf_threshold lab p =
     (safe_label B p = lab \<and>
      (case det_conf B p of Inr c \<Rightarrow> conf_threshold \<le> c | Inl e \<Rightarrow> False))"

text \<open>A category is missing iff no positive detection counts, or a negative one does.\<close>

definition spec_missing :: "builtins \<Rightarrow> rat \<Rightarrow> string \<Rightarrow> string \<Rightarrow> pyval list \<Rightarrow> bool" where
  "spec_missing B conf_threshold positive negative assigned =
     ((\<not> (\<exists>p \<in> set assigned. counts_as B conf_threshold positive p)) \<or>
      (\<exists>p \<in> set assigned. counts_as B conf_threshold negative p))"

text \<open>The equipment assigned to a person of the mapping.\<close>

definition assigned_ppe :: "pyval \<Rightarrow> pyval list" where
  "assigned_ppe info =
     (case info of
        PDict i \<Rightarrow> (case py_iter (dict_get i (PStr ''ppe'') (PList [])) of
                     Inr ps \<Rightarrow> ps
                   | Inl e \<Rightarrow> [])
      | _ \<Rightarrow> [])"

text \<open>What is reported for one person: nothing when no category is missing, and
  otherwise the person's key with the two missing flags.\<close>

definition spec_report :: "builtins \<Rightarrow> rat \<Rightarrow> pyval \<times> pyval \<Rightarrow> (pyval \<times> bool \<times> bool) option" where
  "spec_report B conf_threshold item =
     (case item of (idx, info) \<Rightarrow>
        (let mh = spec_missing B conf_threshold ''helmet'' ''no_helmet'' (assigned_ppe info);
             mv = spec_missing B conf_threshold ''vest'' ''no_vest'' (assigned_ppe info)
         in if mh \<or> mv then Some (idx, mh, mv) else None))"

definition reported :: "violation \<Rightarrow> pyval \<times> bool \<times> bool" where
  "reported v = (person_idx v, missing_helmet v, missing_vest v)"

text \<open>An entry of the mapping that \<^verbatim>\<open>evaluate_violations\<close> can read: a dictionary whose
  person is a dictionary and whose equipment is a sequence of dictionaries with a
  confidence that \<^verbatim>\<open>float\<close> accepts.\<close>

definition readable_info :: "builtins \<Rightarrow> pyval \<Rightarrow> bool" where
  "readable_info B info =
     (case info of
        PDict i \<Rightarrow>
          is_dict (dict_get i (PStr ''person'') (PDict [])) \<and>
          (case py_iter (dict_get i (PStr ''ppe'') (PList [])) of
             Inr ps \<Rightarrow> list_all (\<lambda>p. case det_conf B p of Inr c \<Rightarrow> True | Inl e \<Rightarrow> False) ps
           | Inl e \<Rightarrow> False)
      | _ \<Rightarrow> False)"

subsection \<open>The assignment rule\<close>









subsection \<open>Instances used in the examples\<close>




section \<open>Properties of \<^verbatim>\<open>iou\<close>\<close>

lemma iou_ints:
  "iou [PInt a0, PInt a1, PInt a2, PInt a3] [PInt b0, PInt b1, PInt b2, PInt b3] =
     Inr (iou_num (of_int a0) (of_int a1) (of_int a2) (of_int a3)
                  (of_int b0) (of_int b1) (of_int b2) (of_int b3))"
  by (simp add: iou_def coord_def as_num_def then_err_def)

lemma iou_num_same:
  assumes "1 \<le> a2 - a0" "1 \<le> a3 - a1"
  shows "iou_num a0 a1 a2 a3 a0 a1 a2 a3 = 1"
proof -
  have w: "max 0 (a2 - a0) = a2 - a0" "max 1 (a2 - a0) = a2 - a0"
    using assms by auto
  have h: "max 0 (a3 - a1) = a3 - a1" "max 1 (a3 - a1) = a3 - a1"
    using assms by auto
  have pos: "0 < (a2 - a0) * (a3 - a1)"
    using assms by (intro mult_pos_pos) auto
  show ?thesis
    using pos assms by (simp add: iou_num_def Let_def w h)
qed

lemma iou_num_same_degenerate:
  assumes "a2 \<le> a0 \<or> a3 \<le> a1"
  shows "iou_num a0 a1 a2 a3 a0 a1 a2 a3 = 0"
  using assms by (auto simp: iou_num_def Let_def max_def)

lemma iou_num_disjoint:
  assumes "min a2 b2 \<le> max a0 b0 \<or> min a3 b3 \<le> max a1 b1"
  shows "iou_num a0 a1 a2 a3 b0 b1 b2 b3 = 0"
proof -
  have "max 0 (min a2 b2 - max a0 b0) = 0 \<or> max 0 (min a3 b3 - max a1 b1) = 0"
    using assms by (auto simp: max_def)
  then have "max 0 (min a2 b2 - max a0 b0) * max 0 (min a3 b3 - max a1 b1) = 0"
    by auto
  then show ?thesis
    by (simp add: iou_num_def Let_def)
qed

lemma int_gap: "(x::int) < y \<Longrightarrow> (1::rat) \<le> of_int y - of_int x"
proof -
  assume "x < y"
  then have "1 \<le> y - x" by simp
  then have "(of_int 1 :: rat) \<le> of_int (y - x)" by (simp only: of_int_le_iff)
  then show ?thesis by simp
qed

text \<open>
  C4 (as amended). On boxes of integers, \<^verbatim>\<open>iou\<close> of a box with itself is 1 when the box has
  \<open>x1 < x2\<close> and \<open>y1 < y2\<close>, and 0 when the box is degenerate or inverted (\<open>x2 \<le> x1\<close> or
  \<open>y2 \<le> y1\<close>): the floor of 1 is applied to the two box areas and not to the area of the
  intersection. \<^verbatim>\<open>iou\<close> is 0 for every two boxes whose intersection is empty, degenerate
  boxes included.
\<close>

theorem iou_identical_and_disjoint:
  "(x1 < x2 \<and> y1 < y2 \<longrightarrow>
      iou [PInt x1, PInt y1, PInt x2, PInt y2] [PInt x1, PInt y1, PInt x2, PInt y2] = Inr 1) \<and>
   (x2 \<le> x1 \<or> y2 \<le> y1 \<longrightarrow>
      iou [PInt x1, PInt y1, PInt x2, PInt y2] [PInt x1, PInt y1, PInt x2, PInt y2] = Inr 0) \<and>
   (min a2 b2 \<le> max a0 b0 \<or> min a3 b3 \<le> max a1 b1 \<longrightarrow>
      iou [PInt a0, PInt a1, PInt a2, PInt a3] [PInt b0, PInt b1, PInt b2, PInt b3] = Inr 0)"
proof (intro conjI impI)
  assume "x1 < x2 \<and> y1 < y2"
  then have "(1::rat) \<le> of_int x2 - of_int x1" "(1::rat) \<le> of_int y2 - of_int y1"
    by (simp_all add: int_gap)
  then show "iou [PInt x1, PInt y1, PInt x2, PInt y2] [PInt x1, PInt y1, PInt x2, PInt y2] = Inr 1"
    by (simp add: iou_ints iou_num_same)
next
  assume "x2 \<le> x1 \<or> y2 \<le> y1"
  then have "(of_int x2 :: rat) \<le> of_int x1 \<or> (of_int y2 :: rat) \<le> of_int y1"
    by simp
  then show "iou [PInt x1, PInt y1, PInt x2, PInt y2] [PInt x1, PInt y1, PInt x2, PInt y2] = Inr 0"
    by (simp only: iou_ints iou_num_same_degenerate)
next
  assume "min a2 b2 \<le> max a0 b0 \<or> min a3 b3 \<le> max a1 b1"
  then have "min (of_int a2 :: rat) (of_int b2) \<le> max (of_int a0) (of_int b0) \<or>
             min (of_int a3 :: rat) (of_int b3) \<le> max (of_int a1) (of_int b1)"
    by (auto simp: min_def max_def)
  then show "iou [PInt a0, PInt a1, PInt a2, PInt a3] [PInt b0, PInt b1, PInt b2, PInt b3] = Inr 0"
    by (simp only: iou_ints iou_num_disjoint)
qed

theorem iou_identical_and_disjoint_witness:
  "iou [PInt 10, PInt 10, PInt 110, PInt 210] [PInt 10, PInt 10, PInt 110, PInt 210] = Inr 1 \<and>
   iou [PInt 0, PInt 0, PInt 0, PInt 5] [PInt 0, PInt 0, PInt 0, PInt 5] = Inr 0 \<and>
   iou [PInt 0, PInt 0, PInt 10, PInt 10] [PInt 20, PInt 20, PInt 30, PInt 30] = Inr 0"
  using iou_identical_and_disjoint [of 10 110 10 210 10 20 0 0 10 20 0 0]
        iou_identical_and_disjoint [of 0 0 0 5 10 20 0 0 10 20 0 0]
        iou_identical_and_disjoint [of 0 0 0 5 10 30 0 20 10 30 0 20]
  by simp

text \<open>The claim as it was stated fails on a box of width zero: the value is 0, not 1.\<close>

theorem iou_identical_degenerate_counterexample:
  "iou [PInt 0, PInt 0, PInt 0, PInt 5] [PInt 0, PInt 0, PInt 0, PInt 5] \<noteq> Inr 1"
  by (simp add: iou_ints iou_num_def)

section \<open>The end-to-end scenario\<close>

text \<open>
  C1. One person (box (10,10,110,210)), a \<^verbatim>\<open>no_vest\<close> detection (box (20,20,100,150),
  confidence 0.8) and a \<^verbatim>\<open>helmet\<close> detection (box (10,10,60,60), confidence 0.9), with
  the IoU threshold 0.12 and the confidence threshold 0.35: the mapping has the one
  entry 0, with the person and the equipment \<^verbatim>\<open>[no_vest, helmet]\<close> in this order; there
  is one violation, for person 0, with the helmet not missing and the vest missing; and
  the violation boxes are \<^verbatim>\<open>[(10,10,110,210)]\<close>.
\<close>

theorem end_to_end_scenario:
  "match_ppe_to_person B
     [PDict [(PStr ''box'', PTuple [PInt 10, PInt 10, PInt 110, PInt 210]),
             (PStr ''label'', PStr ''person'')],
      PDict [(PStr ''box'', PTuple [PInt 20, PInt 20, PInt 100, PInt 150]),
             (PStr ''conf'', PFloat (8 / 10)), (PStr ''label'', PStr ''no_vest'')],
      PDict [(PStr ''box'', PTuple [PInt 10, PInt 10, PInt 60, PInt 60]),
             (PStr ''conf'', PFloat (9 / 10)), (PStr ''label'', PStr ''helmet'')]]
     (12 / 100)
   = Inr [\<lparr>person = PDict [(PStr ''box'', PTuple [PInt 10, PInt 10, PInt 110, PInt 210]),
                            (PStr ''label'', PStr ''person'')],
            ppe = [PDict [(PStr ''box'', PTuple [PInt 20, PInt 20, PInt 100, PInt 150]),
                          (PStr ''conf'', PFloat (8 / 10)), (PStr ''label'', PStr ''no_vest'')],
                   PDict [(PStr ''box'', PTuple [PInt 10, PInt 10, PInt 60, PInt 60]),
                          (PStr ''conf'', PFloat (9 / 10)), (PStr ''label'', PStr ''helmet'')]]\<rparr>]
   \<and>
   mapping_value
     [\<lparr>person = PDict [(PStr ''box'', PTuple [PInt 10, PInt 10, PInt 110, PInt 210]),
                       (PStr ''label'', PStr ''person'')],
       ppe = [PDict [(PStr ''box'', PTuple [PInt 20, PInt 20, PInt 100, PInt 150]),
                     (PStr ''conf'', PFloat (8 / 10)), (PStr ''label'', PStr ''no_vest'')],
              PDict [(PStr ''box'', PTuple [PInt 10, PInt 10, PInt 60, PInt 60]),
                     (PStr ''conf'', PFloat (9 / 10)), (PStr ''label'', PStr ''helmet'')]]\<rparr>]
   = PDict [(PInt 0,
             PDict [(PStr ''person'',
                     PDict [(PStr ''box'', PTuple [PInt 10, PInt 10, PInt 110, PInt 210]),
                            (PStr ''label'', PStr ''person'')]),
                    (PStr ''ppe'',
                     PList [PDict [(PStr ''box'', PTuple [PInt 20, PInt 20, PInt 100, PInt 150]),
                                   (PStr ''conf'', PFloat (8 / 10)),
                                   (PStr ''label'', PStr ''no_vest'')],
                            PDict [(PStr ''box'', PTuple [PInt 10, PInt 10, PInt 60, PInt 60]),
                                   (PStr ''conf'', PFloat (9 / 10)),
                                   (PStr ''label'', PStr ''helmet'')]])])]
   \<and>
   evaluate_violations B
     (mapping_value
        [\<lparr>person = PDict [(PStr ''box'', PTuple [PInt 10, PInt 10, PInt 110, PInt 210]),
                          (PStr ''label'', PStr ''person'')],
          ppe = [PDict [(PStr ''box'', PTuple [PInt 20, PInt 20, PInt 100, PInt 150]),
                        (PStr ''conf'', PFloat (8 / 10)), (PStr ''label'', PStr ''no_vest'')],
                 PDict [(PStr ''box'', PTuple [PInt 10, PInt 10, PInt 60, PInt 60]),
                        (PStr ''conf'', PFloat (9 / 10)), (PStr ''label'', PStr ''helmet'')]]\<rparr>])
     (35 / 100)
   = Inr ([\<lparr>person_idx = PInt 0,
             person_box = PTuple [PInt 10, PInt 10, PInt 110, PInt 210],
             missing_helmet = False, missing_vest = True,
             details = \<lparr>has_helmet = True, has_no_helmet = False,
                        has_vest = False, has_no_vest = True\<rparr>\<rparr>],
          [PTuple [PInt 10, PInt 10, PInt 110, PInt 210]])"
  by code_simp

section \<open>Properties of \<^verbatim>\<open>evaluate_violations\<close>\<close>

lemma then_err_Inr_iff:
  "then_err m f = Inr y \<longleftrightarrow> (\<exists>x. m = Inr x \<and> f x = Inr y)"
  by (cases m) (simp_all add: then_err_def)

lemma evaluate_violations_dict:
  "evaluate_violations B (PDict d) thr = eval_loop B thr d ([], [])"
  by (simp add: evaluate_violations_def then_err_def)

lemma evaluate_violations_list:
  "evaluate_violations B (PList xs) thr =
     then_err (list_to_mapping B xs []) (\<lambda>tmp. eval_loop B thr tmp ([], []))"
  by (cases "list_to_mapping B xs []") (simp_all add: evaluate_violations_def then_err_def)

lemma evaluate_violations_Inr:
  assumes "evaluate_violations B mapping thr = Inr r"
  shows "\<exists>items. eval_loop B thr items ([], []) = Inr r"
proof (cases mapping)
  case (PDict d)
  with assms show ?thesis by (auto simp: evaluate_violations_dict)
next
  case (PList xs)
  with assms show ?thesis by (auto simp: evaluate_violations_list then_err_Inr_iff)
qed (use assms in \<open>simp_all add: evaluate_violations_def then_err_def\<close>)

lemma eval_person_boxes:
  assumes "eval_person B thr item (vs, bs) = Inr (vs', bs')" "bs = map person_box vs"
  shows "bs' = map person_box vs'"
  using assms
  by (auto simp: eval_person_def then_err_Inr_iff Let_def split: prod.splits pyval.splits if_splits)

lemma eval_loop_boxes:
  assumes "eval_loop B thr items (vs, bs) = Inr (vs', bs')" "bs = map person_box vs"
  shows "bs' = map person_box vs'"
  using assms
proof (induction items arbitrary: vs bs)
  case Nil
  then show ?case by auto
next
  case (Cons item items)
  from Cons.prems(1) obtain vs1 bs1 where
    step: "eval_person B thr item (vs, bs) = Inr (vs1, bs1)" and
    rest: "eval_loop B thr items (vs1, bs1) = Inr (vs', bs')"
    by (auto simp: then_err_Inr_iff)
  have "bs1 = map person_box vs1"
    using eval_person_boxes [OF step Cons.prems(2)] .
  with Cons.IH rest show ?case by blast
qed

text \<open>
  C9. Whenever \<^verbatim>\<open>evaluate_violations\<close> returns, its two lists correspond index by index:
  they have the same length, and the \<open>i\<close>-th violation box is the \<^verbatim>\<open>person_box\<close> of the
  \<open>i\<close>-th violation.
\<close>

theorem boxes_correspond:
  assumes "evaluate_violations B mapping thr = Inr (vs, bs)"
  shows "length bs = length vs \<and> (\<forall>i < length vs. bs ! i = person_box (vs ! i))"
proof -
  from evaluate_violations_Inr [OF assms] obtain items where
    "eval_loop B thr items ([], []) = Inr (vs, bs)" by blast
  then have "bs = map person_box vs"
    using eval_loop_boxes [of B thr items "[]" "[]" vs bs] by simp
  then show ?thesis by simp
qed

theorem boxes_correspond_witness:
  "evaluate_violations plain_builtins
     (PDict [(PInt 0, PDict [(PStr ''person'', PDict [(PStr ''box'', PInt 7)])])]) (35 / 100)
   = Inr ([\<lparr>person_idx = PInt 0, person_box = PInt 7, missing_helmet = True,
             missing_vest = True, details = no_signals\<rparr>], [PInt 7]) \<and>
   length [PInt 7] = length [\<lparr>person_idx = PInt 0, person_box = PInt 7, missing_helmet = True,
             missing_vest = True, details = no_signals\<rparr>] \<and>
   [PInt 7] ! 0 = person_box ([\<lparr>person_idx = PInt 0, person_box = PInt 7, missing_helmet = True,
             missing_vest = True, details = no_signals\<rparr>] ! 0)"
proof -
  have e: "evaluate_violations plain_builtins
     (PDict [(PInt 0, PDict [(PStr ''person'', PDict [(PStr ''box'', PInt 7)])])]) (35 / 100)
   = Inr ([\<lparr>person_idx = PInt 0, person_box = PInt 7, missing_helmet = True,
             missing_vest = True, details = no_signals\<rparr>], [PInt 7])"
    by code_simp
  from boxes_correspond [OF e] e show ?thesis
    by simp
qed

subsection \<open>The missing rule\<close>

lemma note_signal_flags:
  "has_helmet (note_signal lab c thr s) = (has_helmet s \<or> (lab = ''helmet'' \<and> thr \<le> c))"
  "has_no_helmet (note_signal lab c thr s) = (has_no_helmet s \<or> (lab = ''no_helmet'' \<and> thr \<le> c))"
  "has_vest (note_signal lab c thr s) = (has_vest s \<or> (lab = ''vest'' \<and> thr \<le> c))"
  "has_no_vest (note_signal lab c thr s) = (has_no_vest s \<or> (lab = ''no_vest'' \<and> thr \<le> c))"
  by (auto simp: note_signal_def)

lemma scan_ppe_Cons:
  "scan_ppe B thr (p # ps) s = Inr s' \<longleftrightarrow>
     (\<exists>c. det_conf B p = Inr c \<and> scan_ppe B thr ps (note_signal (safe_label B p) c thr s) = Inr s')"
  by (simp add: then_err_Inr_iff Let_def)

lemma counts_as_conf:
  "det_conf B p = Inr c \<Longrightarrow> counts_as B thr lab p = (safe_label B p = lab \<and> thr \<le> c)"
  by (simp add: counts_as_def)

lemma scan_ppe_signals:
  assumes "scan_ppe B thr ps s = Inr s'"
  shows "has_helmet s' = (has_helmet s \<or> (\<exists>p \<in> set ps. counts_as B thr ''helmet'' p)) \<and>
         has_no_helmet s' = (has_no_helmet s \<or> (\<exists>p \<in> set ps. counts_as B thr ''no_helmet'' p)) \<and>
         has_vest s' = (has_vest s \<or> (\<exists>p \<in> set ps. counts_as B thr ''vest'' p)) \<and>
         has_no_vest s' = (has_no_vest s \<or> (\<exists>p \<in> set ps. counts_as B thr ''no_vest'' p))"
  using assms
proof (induction ps arbitrary: s)
  case Nil
  then show ?case by simp
next
  case (Cons p ps)
  from Cons.prems obtain c where
    c: "det_conf B p = Inr c" and
    rest: "scan_ppe B thr ps (note_signal (safe_label B p) c thr s) = Inr s'"
    unfolding scan_ppe_Cons by blast
  from Cons.IH [OF rest] show ?case
    by (simp add: note_signal_flags counts_as_conf [OF c])
qed

lemma scan_ppe_missing:
  assumes "scan_ppe B thr ps no_signals = Inr s"
  shows "(\<not> has_helmet s \<or> has_no_helmet s) = spec_missing B thr ''helmet'' ''no_helmet'' ps"
    and "(\<not> has_vest s \<or> has_no_vest s) = spec_missing B thr ''vest'' ''no_vest'' ps"
  using scan_ppe_signals [OF assms] by (simp_all add: no_signals_def spec_missing_def)

lemma eval_person_cases:
  assumes "eval_person B thr (idx, info) (vs, bs) = Inr (vs', bs')"
  obtains i pd ps s where
    "info = PDict i" "dict_get i (PStr ''person'') (PDict []) = PDict pd"
    "py_iter (dict_get i (PStr ''ppe'') (PList [])) = Inr ps"
    "scan_ppe B thr ps no_signals = Inr s"
    "vs' = (if (\<not> has_helmet s \<or> has_no_helmet s) \<or> (\<not> has_vest s \<or> has_no_vest s)
            then vs @ [\<lparr>person_idx = idx, person_box = dict_get pd (PStr ''box'') zero_box,
                        missing_helmet = (\<not> has_helmet s \<or> has_no_helmet s),
                        missing_vest = (\<not> has_vest s \<or> has_no_vest s), details = s\<rparr>]
            else vs)"
  using assms
  by (auto simp: eval_person_def then_err_Inr_iff Let_def split: pyval.splits if_splits)

lemma eval_person_reported:
  assumes "eval_person B thr (idx, info) (vs, bs) = Inr (vs', bs')"
  shows "map reported vs' =
           map reported vs @ (case spec_report B thr (idx, info) of None \<Rightarrow> [] | Some r \<Rightarrow> [r])"
proof -
  from assms obtain i pd ps s where
    info: "info = PDict i" and
    ps: "py_iter (dict_get i (PStr ''ppe'') (PList [])) = Inr ps" and
    s: "scan_ppe B thr ps no_signals = Inr s" and
    vs': "vs' = (if (\<not> has_helmet s \<or> has_no_helmet s) \<or> (\<not> has_vest s \<or> has_no_vest s)
            then vs @ [\<lparr>person_idx = idx, person_box = dict_get pd (PStr ''box'') zero_box,
                        missing_helmet = (\<not> has_helmet s \<or> has_no_helmet s),
                        missing_vest = (\<not> has_vest s \<or> has_no_vest s), details = s\<rparr>]
            else vs)"
    by (rule eval_person_cases)
  have a: "assigned_ppe info = ps"
    using info ps by (simp add: assigned_ppe_def)
  define mh where "mh = (\<not> has_helmet s \<or> has_no_helmet s)"
  define mv where "mv = (\<not> has_vest s \<or> has_no_vest s)"
  have mh: "spec_missing B thr ''helmet'' ''no_helmet'' (assigned_ppe info) = mh"
    using scan_ppe_missing(1) [OF s] a by (simp add: mh_def)
  have mv: "spec_missing B thr ''vest'' ''no_vest'' (assigned_ppe info) = mv"
    using scan_ppe_missing(2) [OF s] a by (simp add: mv_def)
  have "vs' = (if mh \<or> mv
            then vs @ [\<lparr>person_idx = idx, person_box = dict_get pd (PStr ''box'') zero_box,
                        missing_helmet = mh, missing_vest = mv, details = s\<rparr>]
            else vs)"
    unfolding vs' mh_def mv_def by (rule refl)
  then show ?thesis
    by (simp add: spec_report_def mh mv reported_def Let_def)
qed

lemma eval_loop_reported:
  assumes "eval_loop B thr items (vs, bs) = Inr (vs', bs')"
  shows "map reported vs' = map reported vs @ List.map_filter (spec_report B thr) items"
  using assms
proof (induction items arbitrary: vs bs)
  case Nil
  then show ?case by auto
next
  case (Cons item items)
  obtain idx info where item: "item = (idx, info)" by (cases item)
  from Cons.prems obtain vs1 bs1 where
    step: "eval_person B thr (idx, info) (vs, bs) = Inr (vs1, bs1)" and
    rest: "eval_loop B thr items (vs1, bs1) = Inr (vs', bs')"
    by (auto simp: then_err_Inr_iff item)
  show ?case
    using Cons.IH [OF rest] eval_person_reported [OF step]
    by (simp add: item split: option.splits)
qed

lemma scan_ppe_total:
  assumes "list_all (\<lambda>p. case det_conf B p of Inr c \<Rightarrow> True | Inl e \<Rightarrow> False) ps"
  shows "\<exists>s'. scan_ppe B thr ps s = Inr s'"
  using assms
proof (induction ps arbitrary: s)
  case Nil
  then show ?case by simp
next
  case (Cons p ps)
  then obtain c where "det_conf B p = Inr c" by (auto split: sum.splits)
  with Cons show ?case by (simp add: then_err_def)
qed

lemma eval_person_total:
  assumes "readable_info B info"
  shows "\<exists>r. eval_person B thr (idx, info) acc = Inr r"
proof -
  obtain vs bs where acc: "acc = (vs, bs)" by (cases acc)
  from assms obtain i pd ps where
    "info = PDict i" "dict_get i (PStr ''person'') (PDict []) = PDict pd"
    "py_iter (dict_get i (PStr ''ppe'') (PList [])) = Inr ps"
    "list_all (\<lambda>p. case det_conf B p of Inr c \<Rightarrow> True | Inl e \<Rightarrow> False) ps"
    by (auto simp: readable_info_def is_dict_def split: pyval.splits sum.splits)
  moreover from this obtain s where "scan_ppe B thr ps no_signals = Inr s"
    using scan_ppe_total by blast
  ultimately show ?thesis
    by (simp add: eval_person_def acc then_err_def Let_def)
qed

lemma eval_loop_total:
  assumes "list_all (\<lambda>item. readable_info B (snd item)) items"
  shows "\<exists>r. eval_loop B thr items acc = Inr r"
  using assms
proof (induction items arbitrary: acc)
  case Nil
  then show ?case by simp
next
  case (Cons item items)
  obtain idx info where item: "item = (idx, info)" by (cases item)
  with Cons.prems obtain r1 where "eval_person B thr item acc = Inr r1"
    using eval_person_total [of B info thr idx acc] by auto
  with Cons show ?case by (simp add: then_err_def)
qed

text \<open>
  C2. For a mapping given as a dictionary, the violations that \<^verbatim>\<open>evaluate_violations\<close>
  returns are, in order, the persons for which the rule of the specification finds a
  category missing, each with the two flags the rule gives: a category is missing iff no
  positive detection with confidence at or above the threshold is assigned to the person,
  or a negative one is. The function returns on every mapping whose entries it can read.
  A person with a \<^verbatim>\<open>helmet\<close> at 0.9 and a \<^verbatim>\<open>no_helmet\<close> at 0.9, threshold 0.35, has
  \<^verbatim>\<open>missing_helmet\<close> true.
\<close>

theorem missing_rule:
  "(\<forall>vs bs. evaluate_violations B (PDict m) thr = Inr (vs, bs) \<longrightarrow>
       map reported vs = List.map_filter (spec_report B thr) m) \<and>
   (list_all (\<lambda>item. readable_info B (snd item)) m \<longrightarrow>
       (\<exists>vs bs. evaluate_violations B (PDict m) thr = Inr (vs, bs))) \<and>
   evaluate_violations B
     (PDict [(PInt 0,
              PDict [(PStr ''person'', PDict [(PStr ''box'', PTuple [PInt 0, PInt 0, PInt 9, PInt 9])]),
                     (PStr ''ppe'',
                      PList [PDict [(PStr ''label'', PStr ''helmet''), (PStr ''conf'', PFloat (9 / 10))],
                             PDict [(PStr ''label'', PStr ''no_helmet''),
                                    (PStr ''conf'', PFloat (9 / 10))]])])])
     (35 / 100)
   = Inr ([\<lparr>person_idx = PInt 0, person_box = PTuple [PInt 0, PInt 0, PInt 9, PInt 9],
             missing_helmet = True, missing_vest = True,
             details = \<lparr>has_helmet = True, has_no_helmet = True,
                        has_vest = False, has_no_vest = False\<rparr>\<rparr>],
          [PTuple [PInt 0, PInt 0, PInt 9, PInt 9]])"
proof (intro conjI allI impI)
  fix vs bs
  assume "evaluate_violations B (PDict m) thr = Inr (vs, bs)"
  then have "eval_loop B thr m ([], []) = Inr (vs, bs)"
    by (simp add: evaluate_violations_dict)
  from eval_loop_reported [OF this] show "map reported vs = List.map_filter (spec_report B thr) m"
    by simp
next
  assume "list_all (\<lambda>item. readable_info B (snd item)) m"
  from eval_loop_total [OF this, of thr "([], [])"]
  show "\<exists>vs bs. evaluate_violations B (PDict m) thr = Inr (vs, bs)"
    by (auto simp: evaluate_violations_dict)
next
  show "evaluate_violations B
     (PDict [(PInt 0,
              PDict [(PStr ''person'', PDict [(PStr ''box'', PTuple [PInt 0, PInt 0, PInt 9, PInt 9])]),
                     (PStr ''ppe'',
                      PList [PDict [(PStr ''label'', PStr ''helmet''), (PStr ''conf'', PFloat (9 / 10))],
                             PDict [(PStr ''label'', PStr ''no_helmet''),
                                    (PStr ''conf'', PFloat (9 / 10))]])])])
     (35 / 100)
   = Inr ([\<lparr>person_idx = PInt 0, person_box = PTuple [PInt 0, PInt 0, PInt 9, PInt 9],
             missing_helmet = True, missing_vest = True,
             details = \<lparr>has_helmet = True, has_no_helmet = True,
                        has_vest = False, has_no_vest = False\<rparr>\<rparr>],
          [PTuple [PInt 0, PInt 0, PInt 9, PInt 9]])"
    by code_simp
qed

theorem missing_rule_witness:
  "list_all (\<lambda>item. readable_info plain_builtins (snd item))
     [(PInt 0, PDict [(PStr ''person'', PDict []),
                      (PStr ''ppe'', PList [PDict [(PStr ''label'', PStr ''Helmet''),
                                                   (PStr ''conf'', PFloat (9 / 10))],
                                            PDict [(PStr ''label'', PStr ''vest''),
                                                   (PStr ''conf'', PFloat (2 / 10))]])]),
      (PInt 1, PDict [(PStr ''person'', PDict []),
                      (PStr ''ppe'', PList [PDict [(PStr ''label'', PStr ''helmet''),
                                                   (PStr ''conf'', PInt 1)],
                                            PDict [(PStr ''label'', PStr ''vest''),
                                                   (PStr ''conf'', PFloat (1 / 2))]])])] \<and>
   (\<exists>vs bs.
      evaluate_violations plain_builtins
        (PDict
          [(PInt 0, PDict [(PStr ''person'', PDict []),
                      (PStr ''ppe'', PList [PDict [(PStr ''label'', PStr ''Helmet''),
                                                   (PStr ''conf'', PFloat (9 / 10))],
                                            PDict [(PStr ''label'', PStr ''vest''),
                                                   (PStr ''conf'', PFloat (2 / 10))]])]),
           (PInt 1, PDict [(PStr ''person'', PDict []),
                      (PStr ''ppe'', PList [PDict [(PStr ''label'', PStr ''helmet''),
                                                   (PStr ''conf'', PInt 1)],
                                            PDict [(PStr ''label'', PStr ''vest''),
                                                   (PStr ''conf'', PFloat (1 / 2))]])])])
        (35 / 100) = Inr (vs, bs) \<and>
      map reported vs = [(PInt 0, False, True)])"
proof -
  let ?m = "[(PInt 0, PDict [(PStr ''person'', PDict []),
                      (PStr ''ppe'', PList [PDict [(PStr ''label'', PStr ''Helmet''),
                                                   (PStr ''conf'', PFloat (9 / 10))],
                                            PDict [(PStr ''label'', PStr ''vest''),
                                                   (PStr ''conf'', PFloat (2 / 10))]])]),
      (PInt 1, PDict [(PStr ''person'', PDict []),
                      (PStr ''ppe'', PList [PDict [(PStr ''label'', PStr ''helmet''),
                                                   (PStr ''conf'', PInt 1)],
                                            PDict [(PStr ''label'', PStr ''vest''),
                                                   (PStr ''conf'', PFloat (1 / 2))]])])]"
  have h: "list_all (\<lambda>item. readable_info plain_builtins (snd item)) ?m"
    by code_simp
  have sr: "List.map_filter (spec_report plain_builtins (35 / 100)) ?m = [(PInt 0, False, True)]"
    by code_simp
  note r = missing_rule [of plain_builtins ?m "35 / 100"]
  from r [THEN conjunct2, THEN conjunct1, THEN mp, OF h] obtain vs bs where
    e: "evaluate_violations plain_builtins (PDict ?m) (35 / 100) = Inr (vs, bs)"
    by (elim exE)
  from r [THEN conjunct1, THEN spec, THEN spec, THEN mp, OF e]
  have "map reported vs = [(PInt 0, False, True)]"
    unfolding sr .
  with e h show ?thesis
    by (intro conjI exI [of _ vs] exI [of _ bs])
qed

subsection \<open>A mapping given as a list\<close>

lemma dict_set_keys: "fst ` set (dict_set d k v) = insert k (fst ` set d)"
  by (induction d k v rule: dict_set.induct) auto

lemma dict_set_distinct: "distinct (map fst d) \<Longrightarrow> distinct (map fst (dict_set d k v))"
  by (induction d k v rule: dict_set.induct) (auto simp: dict_set_keys)

lemma dict_set_values: "snd ` set (dict_set d k v) \<subseteq> insert v (snd ` set d)"
  by (induction d k v rule: dict_set.induct) auto

lemma list_to_mapping_dicts:
  assumes "list_all is_dict items"
  shows "\<exists>tmp'. list_to_mapping B items tmp = Inr tmp' \<and>
           fst ` set tmp' = fst ` set tmp \<union> (\<lambda>item. PInt (item_idx B item)) ` set items \<and>
           (distinct (map fst tmp) \<longrightarrow> distinct (map fst tmp')) \<and>
           ((\<forall>info \<in> snd ` set tmp. \<exists>box. info = list_entry box) \<longrightarrow>
            (\<forall>info \<in> snd ` set tmp'. \<exists>box. info = list_entry box))"
  using assms
proof (induction items arbitrary: tmp)
  case Nil
  then show ?case by simp
next
  case (Cons item items)
  from Cons.prems have "is_dict item" and rest: "list_all is_dict items"
    by simp_all
  then obtain d where item: "item = PDict d"
    by (cases item) (simp_all add: is_dict_def)
  define tmp1 where
    "tmp1 = dict_set tmp (PInt (item_idx B item)) (list_entry (dict_get d (PStr ''person_box'') zero_box))"
  from Cons.IH [OF rest, of tmp1] obtain tmp' where
    r: "list_to_mapping B items tmp1 = Inr tmp'" and
    k: "fst ` set tmp' = fst ` set tmp1 \<union> (\<lambda>item. PInt (item_idx B item)) ` set items" and
    dd: "distinct (map fst tmp1) \<longrightarrow> distinct (map fst tmp')" and
    e: "(\<forall>info \<in> snd ` set tmp1. \<exists>box. info = list_entry box) \<longrightarrow>
        (\<forall>info \<in> snd ` set tmp'. \<exists>box. info = list_entry box)"
    by blast
  have step: "list_to_mapping B (item # items) tmp = Inr tmp'"
    using r by (simp add: item tmp1_def Let_def)
  have k1: "fst ` set tmp1 = insert (PInt (item_idx B item)) (fst ` set tmp)"
    by (simp add: tmp1_def dict_set_keys)
  have d1: "distinct (map fst tmp) \<longrightarrow> distinct (map fst tmp1)"
    by (simp add: tmp1_def dict_set_distinct)
  have e1: "(\<forall>info \<in> snd ` set tmp. \<exists>box. info = list_entry box) \<longrightarrow>
            (\<forall>info \<in> snd ` set tmp1. \<exists>box. info = list_entry box)"
    using dict_set_values [of tmp "PInt (item_idx B item)"
        "list_entry (dict_get d (PStr ''person_box'') zero_box)"]
    unfolding tmp1_def by blast
  have "fst ` set tmp' = fst ` set tmp \<union> (\<lambda>item. PInt (item_idx B item)) ` set (item # items)"
    unfolding k k1 by auto
  moreover have "distinct (map fst tmp) \<longrightarrow> distinct (map fst tmp')"
    using dd d1 by blast
  moreover have "(\<forall>info \<in> snd ` set tmp. \<exists>box. info = list_entry box) \<longrightarrow>
            (\<forall>info \<in> snd ` set tmp'. \<exists>box. info = list_entry box)"
    using e e1 by blast
  ultimately show ?case
    using step by blast
qed

lemma list_to_mapping_not_dicts:
  assumes "\<not> list_all is_dict items"
  shows "list_to_mapping B items tmp = Inl AttributeError"
  using assms
proof (induction items arbitrary: tmp)
  case Nil
  then show ?case by simp
next
  case (Cons item items)
  then show ?case
    by (cases item) (simp_all add: is_dict_def Let_def)
qed

lemma eval_person_list_entry:
  "eval_person B thr (k, list_entry box) (vs, bs) =
     Inr (vs @ [\<lparr>person_idx = k, person_box = box, missing_helmet = True, missing_vest = True,
                 details = no_signals\<rparr>], bs @ [box])"
  by (simp add: eval_person_def list_entry_def dict_get_def then_err_def no_signals_def)

lemma eval_loop_list_entries:
  assumes "\<forall>info \<in> snd ` set tmp. \<exists>box. info = list_entry box"
  shows "\<exists>new. eval_loop B thr tmp (vs, bs) = Inr (vs @ new, bs @ map person_box new) \<and>
           map person_idx new = map fst tmp \<and>
           (\<forall>v \<in> set new. missing_helmet v \<and> missing_vest v \<and> details v = no_signals)"
  using assms
proof (induction tmp arbitrary: vs bs)
  case Nil
  then show ?case by simp
next
  case (Cons item tmp)
  obtain k info where item: "item = (k, info)" by (cases item)
  with Cons.prems obtain box where info: "info = list_entry box" by auto
  define v where "v = \<lparr>person_idx = k, person_box = box, missing_helmet = True,
                        missing_vest = True, details = no_signals\<rparr>"
  from Cons.prems have "\<forall>info \<in> snd ` set tmp. \<exists>box. info = list_entry box" by auto
  from Cons.IH [OF this, of "vs @ [v]" "bs @ [box]"] obtain new where
    n: "eval_loop B thr tmp (vs @ [v], bs @ [box]) = Inr ((vs @ [v]) @ new, (bs @ [box]) @ map person_box new)"
       "map person_idx new = map fst tmp"
       "\<forall>v \<in> set new. missing_helmet v \<and> missing_vest v \<and> details v = no_signals"
    by blast
  have "eval_loop B thr (item # tmp) (vs, bs) = Inr (vs @ (v # new), bs @ map person_box (v # new))"
    using n(1) by (simp add: item info eval_person_list_entry then_err_def v_def)
  moreover have "map person_idx (v # new) = map fst (item # tmp)"
    using n(2) by (simp add: item v_def)
  moreover have "\<forall>w \<in> set (v # new). missing_helmet w \<and> missing_vest w \<and> details w = no_signals"
    using n(3) by (simp add: v_def)
  ultimately show ?case by blast
qed

text \<open>
  C10. A mapping given as a list of dictionaries is rebuilt with an empty equipment list
  for every person, so every rebuilt entry is reported as a violation, with both
  categories missing and no signal set; the entries have distinct keys, one for each index
  that occurs in the list, and an item without \<^verbatim>\<open>person_idx\<close> has the index 0. A list
  with an item that is not a dictionary raises AttributeError.
\<close>

theorem list_input:
  "(list_all is_dict items \<longrightarrow>
      (\<exists>tmp vs bs.
         list_to_mapping B items [] = Inr tmp \<and>
         evaluate_violations B (PList items) thr = Inr (vs, bs) \<and>
         (\<forall>info \<in> snd ` set tmp. \<exists>box. info = list_entry box) \<and>
         map person_idx vs = map fst tmp \<and>
         (\<forall>v \<in> set vs. missing_helmet v \<and> missing_vest v \<and> details v = no_signals) \<and>
         distinct (map fst tmp) \<and>
         set (map fst tmp) = (\<lambda>item. PInt (item_idx B item)) ` set items)) \<and>
   (\<not> list_all is_dict items \<longrightarrow> evaluate_violations B (PList items) thr = Inl AttributeError) \<and>
   (map_of d (PStr ''person_idx'') = None \<longrightarrow> item_idx B (PDict d) = 0)"
proof (intro conjI impI)
  assume "list_all is_dict items"
  from list_to_mapping_dicts [OF this, of B "[]"] obtain tmp where
    t: "list_to_mapping B items [] = Inr tmp"
       "fst ` set tmp = (\<lambda>item. PInt (item_idx B item)) ` set items"
       "distinct (map fst tmp)"
       "\<forall>info \<in> snd ` set tmp. \<exists>box. info = list_entry box"
    by auto
  from eval_loop_list_entries [OF t(4), of B thr "[]" "[]"] obtain new where
    n: "eval_loop B thr tmp ([], []) = Inr (new, map person_box new)"
       "map person_idx new = map fst tmp"
       "\<forall>v \<in> set new. missing_helmet v \<and> missing_vest v \<and> details v = no_signals"
    by auto
  have "evaluate_violations B (PList items) thr = Inr (new, map person_box new)"
    using t(1) n(1) by (simp add: evaluate_violations_list then_err_def)
  with t n show "\<exists>tmp vs bs.
         list_to_mapping B items [] = Inr tmp \<and>
         evaluate_violations B (PList items) thr = Inr (vs, bs) \<and>
         (\<forall>info \<in> snd ` set tmp. \<exists>box. info = list_entry box) \<and>
         map person_idx vs = map fst tmp \<and>
         (\<forall>v \<in> set vs. missing_helmet v \<and> missing_vest v \<and> details v = no_signals) \<and>
         distinct (map fst tmp) \<and>
         set (map fst tmp) = (\<lambda>item. PInt (item_idx B item)) ` set items"
    by auto
next
  assume "\<not> list_all is_dict items"
  then show "evaluate_violations B (PList items) thr = Inl AttributeError"
    by (simp add: evaluate_violations_list list_to_mapping_not_dicts then_err_def)
next
  assume "map_of d (PStr ''person_idx'') = None"
  then show "item_idx B (PDict d) = 0"
    by (simp add: item_idx_def dict_get_def)
qed

theorem list_input_witness:
  "list_all is_dict
     [PDict [(PStr ''person_idx'', PInt 3)], PDict [],
      PDict [(PStr ''person_idx'', PInt 3), (PStr ''person_box'', PTuple [PInt 1, PInt 2, PInt 3, PInt 4])]] \<and>
   (\<exists>vs bs.
      evaluate_violations plain_builtins
        (PList [PDict [(PStr ''person_idx'', PInt 3)], PDict [],
                PDict [(PStr ''person_idx'', PInt 3),
                       (PStr ''person_box'', PTuple [PInt 1, PInt 2, PInt 3, PInt 4])]])
        (35 / 100) = Inr (vs, bs) \<and>
      map person_idx vs = [PInt 3, PInt 0] \<and>
      list_all (\<lambda>v. missing_helmet v \<and> missing_vest v \<and> details v = no_signals) vs)"
proof -
  let ?items = "[PDict [(PStr ''person_idx'', PInt 3)], PDict [],
      PDict [(PStr ''person_idx'', PInt 3), (PStr ''person_box'', PTuple [PInt 1, PInt 2, PInt 3, PInt 4])]]"
  have h: "list_all is_dict ?items"
    by (simp add: is_dict_def)
  have t: "list_to_mapping plain_builtins ?items [] =
             Inr [(PInt 3, list_entry (PTuple [PInt 1, PInt 2, PInt 3, PInt 4])),
                  (PInt 0, list_entry zero_box)]"
    by code_simp
  note r = list_input [of ?items plain_builtins "35 / 100", THEN conjunct1, THEN mp, OF h]
  from r obtain tmp vs bs where
    a1: "list_to_mapping plain_builtins ?items [] = Inr tmp" and
    a2: "evaluate_violations plain_builtins (PList ?items) (35 / 100) = Inr (vs, bs)" and
    a3: "map person_idx vs = map fst tmp" and
    a4: "\<forall>v \<in> set vs. missing_helmet v \<and> missing_vest v \<and> details v = no_signals"
    by (elim exE conjE)
  from a1 have "tmp = [(PInt 3, list_entry (PTuple [PInt 1, PInt 2, PInt 3, PInt 4])),
                  (PInt 0, list_entry zero_box)]"
    unfolding t by (rule sum.inject [THEN iffD1, symmetric])
  with a3 have b3: "map person_idx vs = [PInt 3, PInt 0]"
    by simp
  from a4
  have b4: "list_all (\<lambda>v. missing_helmet v \<and> missing_vest v \<and> details v = no_signals) vs"
    by (simp add: list_all_iff)
  show ?thesis
    by (rule conjI [OF h]) (rule exI [of _ vs], rule exI [of _ bs], rule conjI [OF a2 conjI [OF b3 b4]])
qed

section \<open>Detections with a box that does not hold four numbers\<close>

text \<open>
  C8. \<^verbatim>\<open>has_valid_box\<close> checks that the box is a list or tuple of length four, and not
  that its items are numbers. A detection whose box holds \<^verbatim>\<open>None\<close> passes the cleaning
  step, and \<^verbatim>\<open>match_ppe_to_person\<close> raises TypeError when \<^verbatim>\<open>center\<close> adds the
  coordinates.
\<close>

theorem non_numeric_box_raises:
  "has_valid_box (PDict [(PStr ''box'', PTuple [PInt 10, PInt 10, PNone, PInt 60]),
                         (PStr ''conf'', PFloat (9 / 10)), (PStr ''label'', PStr ''helmet'')]) \<and>
   match_ppe_to_person B
     [PDict [(PStr ''box'', PTuple [PInt 10, PInt 10, PNone, PInt 60]),
             (PStr ''conf'', PFloat (9 / 10)), (PStr ''label'', PStr ''helmet'')]]
     (12 / 100) = Inl TypeError"
  by code_simp

section \<open>The cooldown of the violation log\<close>











section \<open>The throttle of the email alerts\<close>

lemma email_alert_attempt:
  "(snd (email_alert cfg vs t ok st) \<noteq> None) =
     (enable_email cfg \<and> vs \<noteq> [] \<and> smtp_host cfg \<noteq> [] \<and> smtp_user cfg \<noteq> [] \<and>
      smtp_password cfg \<noteq> [] \<and> recipient cfg \<noteq> [] \<and>
      EMAIL_COOLDOWN \<le> t - last_email_time st)"
  by (simp add: email_alert_def)

lemma email_alert_state:
  "fst (email_alert cfg vs t ok st) =
     (if snd (email_alert cfg vs t ok st) \<noteq> None \<and> ok then st\<lparr>last_email_time := t\<rparr> else st)"
  by (simp add: email_alert_def)

lemma email_alert_retry:
  assumes "snd (email_alert cfg vs t False st) \<noteq> None" "t \<le> t'" "vs' \<noteq> []"
  shows "snd (email_alert cfg vs' t' ok' (fst (email_alert cfg vs t False st))) \<noteq> None"
proof -
  have f: "fst (email_alert cfg vs t False st) = st"
    by (simp add: email_alert_state)
  from assms show ?thesis
    unfolding f email_alert_attempt by simp
qed

text \<open>
  C6 (as amended). A send is attempted iff email alerts are enabled, the clock is at least
  \<^verbatim>\<open>EMAIL_COOLDOWN\<close> (60 seconds) past the last alert time, the frame has a violation,
  and the host, the sender, the password and the recipient are all non-empty. The last
  alert time becomes the clock reading iff a send is attempted and succeeds; otherwise the
  session is unchanged, so after a failed send a later frame with a violation attempts
  again.
\<close>

theorem alert_throttle:
  "(snd (email_alert cfg vs t ok st) \<noteq> None \<longleftrightarrow>
      (enable_email cfg \<and> EMAIL_COOLDOWN \<le> t - last_email_time st \<and> vs \<noteq> [] \<and>
       smtp_host cfg \<noteq> [] \<and> smtp_user cfg \<noteq> [] \<and> smtp_password cfg \<noteq> [] \<and>
       recipient cfg \<noteq> [])) \<and>
   fst (email_alert cfg vs t ok st) =
     (if snd (email_alert cfg vs t ok st) \<noteq> None \<and> ok then st\<lparr>last_email_time := t\<rparr> else st) \<and>
   EMAIL_COOLDOWN = 60 \<and>
   (snd (email_alert cfg vs t False st) \<noteq> None \<and> t \<le> t' \<and> vs' \<noteq> [] \<longrightarrow>
      fst (email_alert cfg vs t False st) = st \<and>
      snd (email_alert cfg vs' t' ok' (fst (email_alert cfg vs t False st))) \<noteq> None)"
proof (intro conjI)
  show "snd (email_alert cfg vs t ok st) \<noteq> None \<longleftrightarrow>
      (enable_email cfg \<and> EMAIL_COOLDOWN \<le> t - last_email_time st \<and> vs \<noteq> [] \<and>
       smtp_host cfg \<noteq> [] \<and> smtp_user cfg \<noteq> [] \<and> smtp_password cfg \<noteq> [] \<and>
       recipient cfg \<noteq> [])"
    unfolding email_alert_attempt by blast
  show "fst (email_alert cfg vs t ok st) =
     (if snd (email_alert cfg vs t ok st) \<noteq> None \<and> ok then st\<lparr>last_email_time := t\<rparr> else st)"
    by (rule email_alert_state)
  show "EMAIL_COOLDOWN = 60"
    by (rule EMAIL_COOLDOWN_def)
  show "snd (email_alert cfg vs t False st) \<noteq> None \<and> t \<le> t' \<and> vs' \<noteq> [] \<longrightarrow>
      fst (email_alert cfg vs t False st) = st \<and>
      snd (email_alert cfg vs' t' ok' (fst (email_alert cfg vs t False st))) \<noteq> None"
    using email_alert_retry [of cfg vs t st t' vs' ok'] email_alert_state [of cfg vs t False st]
    by auto
qed

theorem alert_throttle_witness:
  "snd (email_alert
          \<lparr>conf_slider = 35 / 100, run_rate = 8, enable_email = True, smtp_host = ''smtp.gmail.com'',
            smtp_port = 465, use_ssl = True, smtp_user = ''a@b.c'', smtp_password = ''pw'',
            recipient = ''d@e.f''\<rparr>
          [\<lparr>person_idx = PInt 0, person_box = zero_box, missing_helmet = True,
            missing_vest = True, details = no_signals\<rparr>] 1000 False initial_session) \<noteq> None \<and>
   (1000::rat) \<le> 1001 \<and>
   [\<lparr>person_idx = PInt 0, person_box = zero_box, missing_helmet = True,
      missing_vest = True, details = no_signals\<rparr>] \<noteq> [] \<and>
   snd (email_alert
          \<lparr>conf_slider = 35 / 100, run_rate = 8, enable_email = True, smtp_host = ''smtp.gmail.com'',
            smtp_port = 465, use_ssl = True, smtp_user = ''a@b.c'', smtp_password = ''pw'',
            recipient = ''d@e.f''\<rparr>
          [\<lparr>person_idx = PInt 0, person_box = zero_box, missing_helmet = True,
            missing_vest = True, details = no_signals\<rparr>] 1001 True
          (fst (email_alert
                 \<lparr>conf_slider = 35 / 100, run_rate = 8, enable_email = True,
                   smtp_host = ''smtp.gmail.com'', smtp_port = 465, use_ssl = True,
                   smtp_user = ''a@b.c'', smtp_password = ''pw'', recipient = ''d@e.f''\<rparr>
                 [\<lparr>person_idx = PInt 0, person_box = zero_box, missing_helmet = True,
                   missing_vest = True, details = no_signals\<rparr>] 1000 False initial_session)))
     \<noteq> None"
proof -
  let ?cfg = "\<lparr>conf_slider = 35 / 100, run_rate = 8, enable_email = True, smtp_host = ''smtp.gmail.com'',
            smtp_port = 465, use_ssl = True, smtp_user = ''a@b.c'', smtp_password = ''pw'',
            recipient = ''d@e.f''\<rparr>"
  let ?vs = "[\<lparr>person_idx = PInt 0, person_box = zero_box, missing_helmet = True,
            missing_vest = True, details = no_signals\<rparr>]"
  have h: "snd (email_alert ?cfg ?vs 1000 False initial_session) \<noteq> None"
    by (simp add: email_alert_def initial_session_def EMAIL_COOLDOWN_def)
  have le: "(1000::rat) \<le> 1001" and ne: "?vs \<noteq> []"
    by simp_all
  from alert_throttle [where cfg = ?cfg and vs = ?vs and t = 1000 and st = initial_session
      and t' = 1001 and vs' = ?vs and ok' = True and ok = False] h le ne
  show ?thesis
    by blast
qed

text \<open>The claim as it was stated fails when email alerts are switched off: with the
  cooldown over, a violation and the whole configuration present, no send is attempted.\<close>

theorem alert_throttle_counterexample:
  "snd (email_alert
          \<lparr>conf_slider = 35 / 100, run_rate = 8, enable_email = False, smtp_host = ''smtp.gmail.com'',
            smtp_port = 465, use_ssl = True, smtp_user = ''a@b.c'', smtp_password = ''pw'',
            recipient = ''d@e.f''\<rparr>
          [\<lparr>person_idx = PInt 0, person_box = zero_box, missing_helmet = True,
            missing_vest = True, details = no_signals\<rparr>] 1000 True initial_session) = None \<and>
   EMAIL_COOLDOWN \<le> 1000 - last_email_time initial_session"
  by (simp add: email_alert_def initial_session_def EMAIL_COOLDOWN_def)

section \<open>The frame-rate limiter\<close>










section \<open>The assignment of equipment to persons\<close>
























end
